theory Spec2Isabelle
  imports Complex_Main "HOL-Library.Log_Nat"
begin

section \<open>The calculator's text\<close>

text \<open>
  The Expression of \<^verbatim>\<open>calculator.py\<close> is a Python \<^verbatim>\<open>str\<close>: a sequence of code
  points. The characters it can hold are those of the buttons (digits, the decimal
  point, \<^verbatim>\<open>+\<close>, \<^verbatim>\<open>%\<close> and the display signs for division, multiplication and
  subtraction) and those that \<^verbatim>\<open>str(result)\<close> writes back: digits, the ASCII hyphen,
  the point, the exponent letter of a float, and the letters of \<^verbatim>\<open>Ellipsis\<close> (what
  \<^verbatim>\<open>eval("...")\<close> returns). One constructor per code point.
\<close>

datatype sym =
    D0 | D1 | D2 | D3 | D4 | D5 | D6 | D7 | D8 | D9
  | Dot | Plus | Hyphen | Star | Slash | Percent
  | DivSign | MulSign | MinusSign
  | Le | LE | Ll | Li | Lp | Ls

type_synonym pystr = "sym list"

record calculator =
  expression :: pystr
  display :: pystr

text \<open>\<^verbatim>\<open>update_display\<close>: the label shows \<^verbatim>\<open>"0"\<close> for the empty expression.\<close>

definition update_display :: "calculator \<Rightarrow> calculator" where
  "update_display c =
     (if expression c = [] then c\<lparr>display := [D0]\<rparr> else c\<lparr>display := expression c\<rparr>)"

text \<open>\<^verbatim>\<open>append_to_expression\<close>: \<^verbatim>\<open>self.expression += str(value)\<close>; the value is a
  button's text.\<close>

definition append_to_expression :: "calculator \<Rightarrow> pystr \<Rightarrow> calculator" where
  "append_to_expression c v = update_display (c\<lparr>expression := expression c @ v\<rparr>)"

definition clear :: "calculator \<Rightarrow> calculator" where
  "clear c = update_display (c\<lparr>expression := []\<rparr>)"

text \<open>The slice \<^verbatim>\<open>s[:-1]\<close>: all but the last character, and the empty string for the
  empty string (a slice never raises).\<close>

definition slice_drop_last :: "pystr \<Rightarrow> pystr" where
  "slice_drop_last s = take (length s - 1) s"

definition backspace :: "calculator \<Rightarrow> calculator" where
  "backspace c = update_display (c\<lparr>expression := slice_drop_last (expression c)\<rparr>)"

section \<open>Python numbers\<close>

text \<open>
  A Python \<^verbatim>\<open>float\<close> is an IEEE 754 binary64 value. A finite one is held as the
  rational number it denotes (the sign of a zero is dropped: no path of the calculator
  can observe it, since a division by either zero raises and every zero result is
  rendered through \<^verbatim>\<open>int\<close>). Every operation computes the exact rational result and
  rounds it to the nearest double, ties to even, as the hardware does.
\<close>

datatype pyfloat = Finite rat | PosInf | NegInf | NaN

definition pow2 :: "int \<Rightarrow> rat" where
  "pow2 e = (if 0 \<le> e then 2 ^ nat e else 1 / 2 ^ nat (- e))"

definition pow10 :: "int \<Rightarrow> rat" where
  "pow10 e = (if 0 \<le> e then 10 ^ nat e else 1 / 10 ^ nat (- e))"

text \<open>\<open>ilog2 q\<close> is the binary exponent of a positive \<open>q\<close>:
  \<open>2 ^ ilog2 q \<le> q < 2 ^ (ilog2 q + 1)\<close>.\<close>

definition ilog2 :: "rat \<Rightarrow> int" where
  "ilog2 q =
     (let e0 = bitlen (fst (quotient_of q)) - bitlen (snd (quotient_of q))
      in if pow2 e0 \<le> q then e0 else e0 - 1)"

definition round_half_even :: "rat \<Rightarrow> int" where
  "round_half_even x =
     (let f = \<lfloor>x\<rfloor>; r = x - of_int f
      in if r < 1 / 2 then f
         else if 1 / 2 < r then f + 1
         else if even f then f else f + 1)"

text \<open>Rounding a rational to binary64: 53 significant bits, the least exponent of a
  unit in the last place is \<open>-1074\<close> (subnormals), and a rounded magnitude of
  \<open>2 ^ 1024\<close> or more (a binary exponent of 1024 or more) is an infinity.\<close>

definition to_double :: "rat \<Rightarrow> pyfloat" where
  "to_double q =
     (if q = 0 then Finite 0
      else let p = max (ilog2 \<bar>q\<bar> - 52) (- 1074);
               r = of_int (round_half_even (q / pow2 p)) * pow2 p
           in if 1024 \<le> ilog2 \<bar>r\<bar> then (if 0 < q then PosInf else NegInf)
              else Finite r)"

definition fneg :: "pyfloat \<Rightarrow> pyfloat" where
  "fneg x = (case x of Finite q \<Rightarrow> Finite (- q) | PosInf \<Rightarrow> NegInf
             | NegInf \<Rightarrow> PosInf | NaN \<Rightarrow> NaN)"

definition fadd :: "pyfloat \<Rightarrow> pyfloat \<Rightarrow> pyfloat" where
  "fadd x y =
     (case (x, y) of
        (NaN, _) \<Rightarrow> NaN
      | (_, NaN) \<Rightarrow> NaN
      | (PosInf, NegInf) \<Rightarrow> NaN
      | (NegInf, PosInf) \<Rightarrow> NaN
      | (PosInf, _) \<Rightarrow> PosInf
      | (NegInf, _) \<Rightarrow> NegInf
      | (_, PosInf) \<Rightarrow> PosInf
      | (_, NegInf) \<Rightarrow> NegInf
      | (Finite a, Finite b) \<Rightarrow> to_double (a + b))"

definition fsub :: "pyfloat \<Rightarrow> pyfloat \<Rightarrow> pyfloat" where
  "fsub x y = fadd x (fneg y)"

text \<open>\<open>fnegative x\<close> is C's \<^verbatim>\<open>x < 0\<close> (false for a NaN); \<open>fzero x\<close> is
  \<^verbatim>\<open>x == 0.0\<close>.\<close>

definition fnegative :: "pyfloat \<Rightarrow> bool" where
  "fnegative x = (case x of Finite q \<Rightarrow> q < 0 | NegInf \<Rightarrow> True | _ \<Rightarrow> False)"

definition fzero :: "pyfloat \<Rightarrow> bool" where
  "fzero x = (x = Finite 0)"

definition signed_inf :: "bool \<Rightarrow> pyfloat" where
  "signed_inf neg = (if neg then NegInf else PosInf)"

definition fmul :: "pyfloat \<Rightarrow> pyfloat \<Rightarrow> pyfloat" where
  "fmul x y =
     (case (x, y) of
        (NaN, _) \<Rightarrow> NaN
      | (_, NaN) \<Rightarrow> NaN
      | (Finite a, Finite b) \<Rightarrow> to_double (a * b)
      | _ \<Rightarrow> if fzero x \<or> fzero y then NaN
             else signed_inf (fnegative x \<noteq> fnegative y))"

text \<open>The quotient of the hardware for a divisor that is not zero (every Python
  division checks for a zero divisor first).\<close>

definition fdiv :: "pyfloat \<Rightarrow> pyfloat \<Rightarrow> pyfloat" where
  "fdiv x y =
     (case (x, y) of
        (NaN, _) \<Rightarrow> NaN
      | (_, NaN) \<Rightarrow> NaN
      | (Finite a, Finite b) \<Rightarrow> to_double (a / b)
      | (Finite a, _) \<Rightarrow> Finite 0
      | (_, Finite b) \<Rightarrow> signed_inf (fnegative x \<noteq> fnegative y)
      | _ \<Rightarrow> NaN)"

text \<open>C's \<^verbatim>\<open>fmod\<close> (exact: the remainder of the quotient truncated towards zero) and
  \<^verbatim>\<open>floor\<close>.\<close>

definition trunc_rat :: "rat \<Rightarrow> int" where
  "trunc_rat q = (if 0 \<le> q then \<lfloor>q\<rfloor> else \<lceil>q\<rceil>)"

definition c_fmod :: "pyfloat \<Rightarrow> pyfloat \<Rightarrow> pyfloat" where
  "c_fmod x y =
     (case (x, y) of
        (Finite a, Finite b) \<Rightarrow> Finite (a - b * of_int (trunc_rat (a / b)))
      | (Finite a, PosInf) \<Rightarrow> Finite a
      | (Finite a, NegInf) \<Rightarrow> Finite a
      | _ \<Rightarrow> NaN)"

definition c_floor :: "pyfloat \<Rightarrow> pyfloat" where
  "c_floor x = (case x of Finite q \<Rightarrow> Finite (of_int \<lfloor>q\<rfloor>) | _ \<Rightarrow> x)"

text \<open>\<open>fgreater_half x\<close> is C's \<^verbatim>\<open>x > 0.5\<close>.\<close>

definition fgreater_half :: "pyfloat \<Rightarrow> bool" where
  "fgreater_half x = (case x of Finite q \<Rightarrow> 1 / 2 < q | PosInf \<Rightarrow> True | _ \<Rightarrow> False)"

text \<open>\<^verbatim>\<open>float_rem\<close> of \<^verbatim>\<open>floatobject.c\<close>, after its test for a zero divisor: the
  remainder takes the sign of the divisor.\<close>

definition float_rem :: "pyfloat \<Rightarrow> pyfloat \<Rightarrow> pyfloat" where
  "float_rem vx wx =
     (let m = c_fmod vx wx
      in if \<not> fzero m then (if fnegative wx \<noteq> fnegative m then fadd m wx else m)
         else Finite 0)"

text \<open>\<^verbatim>\<open>_float_div_mod\<close> of \<^verbatim>\<open>floatobject.c\<close>, the quotient part, after the test for
  a zero divisor.\<close>

definition float_floor_div :: "pyfloat \<Rightarrow> pyfloat \<Rightarrow> pyfloat" where
  "float_floor_div vx wx =
     (let m = c_fmod vx wx;
          d0 = fdiv (fsub vx m) wx;
          d = (if \<not> fzero m \<and> fnegative wx \<noteq> fnegative m then fsub d0 (Finite 1) else d0)
      in if \<not> fzero d
         then (let fl = c_floor d
               in if fgreater_half (fsub d fl) then fadd fl (Finite 1) else fl)
         else Finite 0)"

section \<open>Values, exceptions and the operators of Python\<close>

datatype pyval = PyInt int | PyFloat pyfloat | PyEllipsis

datatype pyexn =
    SyntaxError | ZeroDivisionError | OverflowError | ValueError
  | NameError | AttributeError | TypeError

text \<open>An evaluation returns a value or raises. \<open>Beyond\<close> marks the two results of
  Python that the value type does not hold: the \<^verbatim>\<open>bool\<close> of an \<^verbatim>\<open>is\<close> comparison (it
  depends on object identity) and the \<^verbatim>\<open>complex\<close> power of a negative base.\<close>

datatype 'a outcome = Val 'a | Exn pyexn | Beyond

definition bind :: "'a outcome \<Rightarrow> ('a \<Rightarrow> 'b outcome) \<Rightarrow> 'b outcome" where
  "bind m f = (case m of Val v \<Rightarrow> f v | Exn e \<Rightarrow> Exn e | Beyond \<Rightarrow> Beyond)"

text \<open>What the interpreter and the C library leave open: \<open>libm_pow x y\<close> is the real
  number that the platform's \<^verbatim>\<open>pow\<close> rounds to a double for finite \<open>x > 0\<close>,
  \<open>x \<noteq> 1\<close> and finite \<open>y \<noteq> 0\<close>; \<open>max_str_digits\<close> is
  \<^verbatim>\<open>sys.get_int_max_str_digits()\<close>, with 0 for no limit (and for the interpreters
  before the limit existed).\<close>

record py_runtime =
  libm_pow :: "rat \<Rightarrow> rat \<Rightarrow> rat"
  max_str_digits :: nat

text \<open>\<^verbatim>\<open>PyLong_AsDouble\<close>: correctly rounded, \<^verbatim>\<open>OverflowError\<close> beyond the doubles.\<close>

definition int_as_double :: "int \<Rightarrow> pyfloat outcome" where
  "int_as_double n =
     (case to_double (of_int n) of Finite q \<Rightarrow> Val (Finite q) | _ \<Rightarrow> Exn OverflowError)"

definition as_double :: "pyval \<Rightarrow> pyfloat outcome" where
  "as_double v = (case v of PyInt n \<Rightarrow> int_as_double n | PyFloat x \<Rightarrow> Val x
                  | PyEllipsis \<Rightarrow> Exn TypeError)"

text \<open>\<^verbatim>\<open>long_true_divide\<close>: the quotient of two ints, correctly rounded.\<close>

definition int_true_divide :: "int \<Rightarrow> int \<Rightarrow> pyval outcome" where
  "int_true_divide a b =
     (if b = 0 then Exn ZeroDivisionError
      else case to_double (of_int a / of_int b) of
             Finite q \<Rightarrow> Val (PyFloat (Finite q))
           | _ \<Rightarrow> Exn OverflowError)"

definition is_odd_integer :: "pyfloat \<Rightarrow> bool" where
  "is_odd_integer x = (case x of Finite q \<Rightarrow> of_int \<lfloor>q\<rfloor> = q \<and> odd \<lfloor>q\<rfloor> | _ \<Rightarrow> False)"

definition fabs :: "pyfloat \<Rightarrow> pyfloat" where
  "fabs x = (case x of Finite q \<Rightarrow> Finite \<bar>q\<bar> | NegInf \<Rightarrow> PosInf | _ \<Rightarrow> x)"

definition fgreater :: "pyfloat \<Rightarrow> rat \<Rightarrow> bool" where
  "fgreater x c = (case x of Finite q \<Rightarrow> c < q | PosInf \<Rightarrow> True | _ \<Rightarrow> False)"

text \<open>\<^verbatim>\<open>float_pow\<close> of \<^verbatim>\<open>floatobject.c\<close>, case by case in its order. The library's
  \<^verbatim>\<open>pow\<close> is reached with a finite positive base other than 1 and a finite exponent
  other than 0; an infinite result there is \<^verbatim>\<open>ERANGE\<close>, hence \<^verbatim>\<open>OverflowError\<close>.\<close>

definition float_pow :: "py_runtime \<Rightarrow> pyfloat \<Rightarrow> pyfloat \<Rightarrow> pyfloat outcome" where
  "float_pow rt iv iw =
     (if fzero iw then Val (Finite 1)
      else if iv = NaN then Val NaN
      else if iw = NaN then Val (if iv = Finite 1 then Finite 1 else NaN)
      else if iw = PosInf \<or> iw = NegInf then
        (if fabs iv = Finite 1 then Val (Finite 1)
         else if (iw = PosInf) = fgreater (fabs iv) 1 then Val PosInf
         else Val (Finite 0))
      else if iv = PosInf \<or> iv = NegInf then
        (if fgreater iw 0 then Val (if is_odd_integer iw then iv else PosInf)
         else Val (Finite 0))
      else if fzero iv then
        (if fnegative iw then Exn ZeroDivisionError else Val (Finite 0))
      else if fnegative iv \<and> c_floor iw \<noteq> iw then Beyond
      else if fabs iv = Finite 1 then
        Val (if fnegative iv \<and> is_odd_integer iw then Finite (- 1) else Finite 1)
      else (case (fabs iv, iw) of
              (Finite x, Finite y) \<Rightarrow>
                (case to_double (libm_pow rt x y) of
                   Finite r \<Rightarrow>
                     Val (Finite (if fnegative iv \<and> is_odd_integer iw then - r else r))
                 | _ \<Rightarrow> Exn OverflowError)
            | _ \<Rightarrow> Val NaN))"

datatype operator = Add | Sub | Mult | Div | FloorDiv | Mod | Pow

text \<open>The float slot of each operator: both operands are converted first
  (\<^verbatim>\<open>CONVERT_TO_DOUBLE\<close>, left then right), then a zero divisor is refused.\<close>

definition float_binop :: "py_runtime \<Rightarrow> operator \<Rightarrow> pyval \<Rightarrow> pyval \<Rightarrow> pyval outcome" where
  "float_binop rt op v w =
     bind (as_double v) (\<lambda>a. bind (as_double w) (\<lambda>b.
       case op of
         Add \<Rightarrow> Val (PyFloat (fadd a b))
       | Sub \<Rightarrow> Val (PyFloat (fsub a b))
       | Mult \<Rightarrow> Val (PyFloat (fmul a b))
       | Div \<Rightarrow> if fzero b then Exn ZeroDivisionError else Val (PyFloat (fdiv a b))
       | FloorDiv \<Rightarrow>
           if fzero b then Exn ZeroDivisionError else Val (PyFloat (float_floor_div a b))
       | Mod \<Rightarrow> if fzero b then Exn ZeroDivisionError else Val (PyFloat (float_rem a b))
       | Pow \<Rightarrow> bind (float_pow rt a b) (\<lambda>r. Val (PyFloat r))))"

text \<open>The int slot: exact arithmetic on unbounded integers; \<^verbatim>\<open>//\<close> and \<^verbatim>\<open>%\<close> floor,
  as \<open>div\<close> and \<open>mod\<close> on \<open>int\<close> do; a negative exponent goes to the float power.\<close>

definition int_binop :: "py_runtime \<Rightarrow> operator \<Rightarrow> int \<Rightarrow> int \<Rightarrow> pyval outcome" where
  "int_binop rt op a b =
     (case op of
        Add \<Rightarrow> Val (PyInt (a + b))
      | Sub \<Rightarrow> Val (PyInt (a - b))
      | Mult \<Rightarrow> Val (PyInt (a * b))
      | Div \<Rightarrow> int_true_divide a b
      | FloorDiv \<Rightarrow> if b = 0 then Exn ZeroDivisionError else Val (PyInt (a div b))
      | Mod \<Rightarrow> if b = 0 then Exn ZeroDivisionError else Val (PyInt (a mod b))
      | Pow \<Rightarrow> if 0 \<le> b then Val (PyInt (a ^ nat b))
               else float_binop rt Pow (PyInt a) (PyInt b))"

text \<open>Binary operator dispatch: two ints use the int slot, an \<^verbatim>\<open>Ellipsis\<close> operand is
  a \<^verbatim>\<open>TypeError\<close>, anything else is float arithmetic.\<close>

definition binary_op :: "py_runtime \<Rightarrow> operator \<Rightarrow> pyval \<Rightarrow> pyval \<Rightarrow> pyval outcome" where
  "binary_op rt op v w =
     (case (v, w) of
        (PyInt a, PyInt b) \<Rightarrow> int_binop rt op a b
      | (PyEllipsis, _) \<Rightarrow> Exn TypeError
      | (_, PyEllipsis) \<Rightarrow> Exn TypeError
      | _ \<Rightarrow> float_binop rt op v w)"

datatype unaryop = UAdd | USub

definition unary_op :: "unaryop \<Rightarrow> pyval \<Rightarrow> pyval outcome" where
  "unary_op op v =
     (case v of
        PyInt n \<Rightarrow> Val (PyInt (case op of UAdd \<Rightarrow> n | USub \<Rightarrow> - n))
      | PyFloat x \<Rightarrow> Val (PyFloat (case op of UAdd \<Rightarrow> x | USub \<Rightarrow> fneg x))
      | PyEllipsis \<Rightarrow> Exn TypeError)"

section \<open>Numbers as text\<close>

fun is_digit :: "sym \<Rightarrow> bool" where
  "is_digit D0 = True" | "is_digit D1 = True" | "is_digit D2 = True"
| "is_digit D3 = True" | "is_digit D4 = True" | "is_digit D5 = True"
| "is_digit D6 = True" | "is_digit D7 = True" | "is_digit D8 = True"
| "is_digit D9 = True" | "is_digit _ = False"

fun digit_value :: "sym \<Rightarrow> int" where
  "digit_value D1 = 1" | "digit_value D2 = 2" | "digit_value D3 = 3"
| "digit_value D4 = 4" | "digit_value D5 = 5" | "digit_value D6 = 6"
| "digit_value D7 = 7" | "digit_value D8 = 8" | "digit_value D9 = 9"
| "digit_value _ = 0"

definition digit_sym :: "int \<Rightarrow> sym" where
  "digit_sym d = [D0, D1, D2, D3, D4, D5, D6, D7, D8, D9] ! nat (d mod 10)"

definition digits_value :: "sym list \<Rightarrow> int" where
  "digits_value ds = foldl (\<lambda>a c. 10 * a + digit_value c) 0 ds"

text \<open>The decimal digits of a non-negative integer, without leading zeros.\<close>

function digits_of :: "int \<Rightarrow> sym list" where
  "digits_of n = (if n < 10 then [digit_sym n] else digits_of (n div 10) @ [digit_sym (n mod 10)])"
  by pat_completeness auto
termination
  by (relation "measure nat") auto

declare digits_of.simps [simp del]

definition str_int :: "int \<Rightarrow> pystr" where
  "str_int n = (if n < 0 then Hyphen # digits_of (- n) else digits_of n)"

text \<open>The conversion limit of CPython (3.11 and the security releases of the older
  branches): a conversion between \<^verbatim>\<open>int\<close> and decimal text of more than
  \<^verbatim>\<open>max_str_digits\<close> digits is refused; counts up to the threshold 640 are never
  refused, and 0 switches the limit off.\<close>

definition over_digit_limit :: "py_runtime \<Rightarrow> nat \<Rightarrow> bool" where
  "over_digit_limit rt k = (640 < k \<and> 0 < max_str_digits rt \<and> max_str_digits rt < k)"

text \<open>\<^verbatim>\<open>str\<close> of an int.\<close>

definition py_str_int :: "py_runtime \<Rightarrow> int \<Rightarrow> pystr outcome" where
  "py_str_int rt n =
     (if over_digit_limit rt (length (digits_of \<bar>n\<bar>)) then Exn ValueError
      else Val (str_int n))"

text \<open>\<open>ilog10 q\<close> is the decimal exponent of a positive \<open>q\<close>:
  \<open>10 ^ ilog10 q \<le> q < 10 ^ (ilog10 q + 1)\<close>.\<close>

definition ilog10 :: "rat \<Rightarrow> int" where
  "ilog10 q =
     (let e0 = int (length (digits_of (fst (quotient_of q))))
               - int (length (digits_of (snd (quotient_of q))))
      in if pow10 e0 \<le> q then e0 else e0 - 1)"

text \<open>\<^verbatim>\<open>repr\<close> of a float takes the shortest digit string that reads back as the same
  double and, among the strings of that length, the one nearest to it (mode 0 of
  \<^verbatim>\<open>_Py_dg_dtoa\<close>). For \<open>n\<close> digits and a positive double \<open>x\<close> with
  \<open>10 ^ (decpt - 1) \<le> x < 10 ^ decpt\<close>, the candidates are the two neighbours of
  \<open>x\<close> among the multiples of \<open>10 ^ (decpt - n)\<close>.\<close>

definition repr_candidate :: "rat \<Rightarrow> int \<Rightarrow> nat \<Rightarrow> int option" where
  "repr_candidate x decpt n =
     (let s = pow10 (decpt - int n);
          lo = \<lfloor>x / s\<rfloor>;
          hi = lo + 1;
          okl = (to_double (of_int lo * s) = Finite x);
          okh = (to_double (of_int hi * s) = Finite x)
      in if okl \<and> okh then
           (if x - of_int lo * s < of_int hi * s - x then Some lo
            else if of_int hi * s - x < x - of_int lo * s then Some hi
            else if even lo then Some lo else Some hi)
         else if okl then Some lo
         else if okh then Some hi
         else None)"

text \<open>The search, from \<open>n\<close> digits up; when the fuel is spent (at 17 digits) the
  nearest string of that length is taken, which always reads back.\<close>

fun shortest_search :: "nat \<Rightarrow> rat \<Rightarrow> int \<Rightarrow> nat \<Rightarrow> int \<times> nat" where
  "shortest_search 0 x decpt n = (round_half_even (x / pow10 (decpt - int n)), n)"
| "shortest_search (Suc k) x decpt n =
     (case repr_candidate x decpt n of
        Some m \<Rightarrow> (m, n)
      | None \<Rightarrow> shortest_search k x decpt (Suc n))"

definition strip_trailing_zeros :: "sym list \<Rightarrow> sym list" where
  "strip_trailing_zeros ds = rev (dropWhile (\<lambda>c. c = D0) (rev ds))"

text \<open>The digits of a positive double and the position of its decimal point:
  \<open>x = 0.d\<^sub>1d\<^sub>2\<dots>d\<^sub>n \<times> 10 ^ decpt\<close>. A candidate that is a power of ten has one
  digit and a decimal point one place further right.\<close>

definition repr_digits :: "rat \<Rightarrow> sym list \<times> int" where
  "repr_digits x =
     (let decpt = ilog10 x + 1;
          (m, n) = shortest_search 16 x decpt 1
      in if m = 10 ^ n then ([D1], decpt + 1)
         else (strip_trailing_zeros (digits_of m), decpt))"

text \<open>\<^verbatim>\<open>format_float_short\<close> for \<^verbatim>\<open>repr\<close>: exponent notation when
  \<open>decpt \<le> -4\<close> or \<open>16 < decpt\<close>, the exponent with its sign and at least two
  digits; otherwise positional, with \<^verbatim>\<open>.0\<close> after an integer.\<close>

definition exponent_text :: "int \<Rightarrow> sym list" where
  "exponent_text e =
     Le # (if e < 0 then Hyphen else Plus)
        # (if \<bar>e\<bar> < 10 then D0 # digits_of \<bar>e\<bar> else digits_of \<bar>e\<bar>)"

definition format_digits :: "sym list \<Rightarrow> int \<Rightarrow> sym list" where
  "format_digits ds decpt =
     (if decpt \<le> - 4 \<or> 16 < decpt then
        (if 1 < length ds then hd ds # Dot # tl ds else ds) @ exponent_text (decpt - 1)
      else if decpt \<le> 0 then D0 # Dot # replicate (nat (- decpt)) D0 @ ds
      else if int (length ds) \<le> decpt then
        ds @ replicate (nat decpt - length ds) D0 @ [Dot, D0]
      else take (nat decpt) ds @ Dot # drop (nat decpt) ds)"

text \<open>\<^verbatim>\<open>str\<close> of a finite float.\<close>

definition float_repr :: "rat \<Rightarrow> pystr" where
  "float_repr x =
     (if x = 0 then [D0, Dot, D0]
      else (if x < 0 then [Hyphen] else []) @
           (case repr_digits \<bar>x\<bar> of (ds, decpt) \<Rightarrow> format_digits ds decpt))"

section \<open>Python's tokenizer on the calculator's text\<close>

datatype token =
    NUMBER pyval | NAME "sym list" | KwIs | KwElse
  | DOT | ELLIPSIS | PLUS | MINUS | STAR | SLASH | PERCENT | DOUBLESTAR | DOUBLESLASH

fun is_letter :: "sym \<Rightarrow> bool" where
  "is_letter Le = True" | "is_letter LE = True" | "is_letter Ll = True"
| "is_letter Li = True" | "is_letter Lp = True" | "is_letter Ls = True"
| "is_letter _ = False"

definition is_ident_char :: "sym \<Rightarrow> bool" where
  "is_ident_char c = (is_letter c \<or> is_digit c)"

text \<open>\<^verbatim>\<open>verify_end_of_number\<close> of \<^verbatim>\<open>tokenizer.c\<close>: a letter right after a numeric
  literal is an error (\<^verbatim>\<open>invalid decimal literal\<close>), unless it starts one of the
  keywords that may follow a number; \<^verbatim>\<open>is\<close> and \<^verbatim>\<open>else\<close> are the two this alphabet
  can spell (the test looks at \<^verbatim>\<open>s\<close> after \<^verbatim>\<open>i\<close> and at \<^verbatim>\<open>lse\<close> after \<^verbatim>\<open>e\<close>).\<close>

definition verify_end_of_number :: "sym list \<Rightarrow> bool" where
  "verify_end_of_number cs =
     (case cs of
        [] \<Rightarrow> True
      | c # r \<Rightarrow> \<not> is_letter c \<or> (c = Li \<and> take 1 r = [Ls])
                 \<or> (c = Le \<and> take 3 r = [Ll, Ls, Le]))"

text \<open>The exponent part of a literal, read at the text that follows the mantissa:
  \<^verbatim>\<open>e\<close> or \<^verbatim>\<open>E\<close>, an optional sign, digits. A sign without a digit is an error; a
  letter \<^verbatim>\<open>e\<close> followed by neither is left to \<^verbatim>\<open>verify_end_of_number\<close>.\<close>

datatype exponent = NoExponent | Exponent bool "sym list" "sym list" | BadExponent

definition scan_exponent :: "sym list \<Rightarrow> exponent" where
  "scan_exponent cs =
     (case cs of
        [] \<Rightarrow> NoExponent
      | c # r \<Rightarrow>
          if c = Le \<or> c = LE then
            (case r of
               [] \<Rightarrow> if verify_end_of_number cs then NoExponent else BadExponent
             | s # r' \<Rightarrow>
                 if s = Plus \<or> s = Hyphen then
                   (if r' \<noteq> [] \<and> is_digit (hd r')
                    then Exponent (s = Hyphen) (takeWhile is_digit r') (dropWhile is_digit r')
                    else BadExponent)
                 else if is_digit s
                   then Exponent False (takeWhile is_digit r) (dropWhile is_digit r)
                 else if verify_end_of_number cs then NoExponent else BadExponent)
          else NoExponent)"

text \<open>The value of a float literal (\<^verbatim>\<open>strtod\<close>, correctly rounded): integer digits,
  fraction digits, sign and digits of the exponent.\<close>

definition decimal_value :: "sym list \<Rightarrow> sym list \<Rightarrow> bool \<Rightarrow> sym list \<Rightarrow> rat" where
  "decimal_value ip fp neg ed =
     of_int (digits_value (ip @ fp))
       * pow10 ((if neg then - digits_value ed else digits_value ed) - int (length fp))"

text \<open>A numeric literal, read at a digit or at a point followed by a digit; \<open>None\<close> is
  a \<^verbatim>\<open>SyntaxError\<close>. A literal with a point or an exponent is a float; an integer
  literal may start with 0 only if all its digits are 0, and a literal that does not
  start with 0 is subject to the conversion limit.\<close>

definition scan_number :: "py_runtime \<Rightarrow> sym list \<Rightarrow> (token \<times> sym list) option" where
  "scan_number rt cs =
     (let ip = takeWhile is_digit cs;
          r1 = dropWhile is_digit cs;
          point = (take 1 r1 = [Dot]);
          fp = (if point then takeWhile is_digit (tl r1) else []);
          r2 = (if point then dropWhile is_digit (tl r1) else r1)
      in case scan_exponent r2 of
           BadExponent \<Rightarrow> None
         | Exponent neg ed r3 \<Rightarrow>
             if verify_end_of_number r3
             then Some (NUMBER (PyFloat (to_double (decimal_value ip fp neg ed))), r3)
             else None
         | NoExponent \<Rightarrow>
             if \<not> verify_end_of_number r2 then None
             else if point
               then Some (NUMBER (PyFloat (to_double (decimal_value ip fp False []))), r2)
             else if take 1 ip = [D0] \<and> \<not> list_all (\<lambda>d. d = D0) ip then None
             else if take 1 ip \<noteq> [D0] \<and> over_digit_limit rt (length ip) then None
             else Some (NUMBER (PyInt (digits_value ip)), r2))"

lemma scan_exponent_length:
  "scan_exponent cs = Exponent neg ed r \<Longrightarrow> length r \<le> length cs"
  by (auto simp: scan_exponent_def split: list.splits if_splits
      intro: le_trans [OF length_dropWhile_le])

lemma scan_number_length:
  assumes "scan_number rt (c # cs) = Some (t, rest)" and "is_digit c \<or> c = Dot"
  shows "length rest \<le> length cs"
proof -
  define r1 where "r1 = dropWhile is_digit (c # cs)"
  define r2 where
    "r2 = (if take 1 r1 = [Dot] then dropWhile is_digit (tl r1) else r1)"
  have "length r2 \<le> length cs"
  proof (cases "is_digit c")
    case True
    then have "r1 = dropWhile is_digit cs" by (simp add: r1_def)
    then have "length r1 \<le> length cs" by (simp add: length_dropWhile_le)
    moreover have "length (dropWhile is_digit (tl r1)) \<le> length r1"
      by (rule le_trans [OF length_dropWhile_le]) simp
    ultimately show ?thesis by (simp add: r2_def)
  next
    case False
    with assms(2) have c: "c = Dot" by simp
    then have "r1 = Dot # cs" by (simp add: r1_def)
    then show ?thesis by (simp add: r2_def length_dropWhile_le)
  qed
  moreover have "rest = r2 \<or> (\<exists>neg ed. scan_exponent r2 = Exponent neg ed rest)"
    using assms(1) unfolding scan_number_def Let_def r1_def [symmetric] r2_def [symmetric]
    by (auto split: exponent.splits if_splits)
  ultimately show ?thesis
    by (auto dest: scan_exponent_length)
qed

text \<open>The tokens of a text, by longest match; \<open>None\<close> is a \<^verbatim>\<open>SyntaxError\<close> of the
  tokenizer. The display signs of the buttons are no characters of Python.\<close>

function tokenize :: "py_runtime \<Rightarrow> sym list \<Rightarrow> token list option" where
  "tokenize rt [] = Some []"
| "tokenize rt (c # cs) =
     (if is_digit c \<or> (c = Dot \<and> cs \<noteq> [] \<and> is_digit (hd cs)) then
        (case scan_number rt (c # cs) of
           None \<Rightarrow> None
         | Some (t, rest) \<Rightarrow> map_option ((#) t) (tokenize rt rest))
      else if is_letter c then
        (let w = c # takeWhile is_ident_char cs
         in map_option
              ((#) (if w = [Li, Ls] then KwIs
                    else if w = [Le, Ll, Ls, Le] then KwElse else NAME w))
              (tokenize rt (dropWhile is_ident_char cs)))
      else if c = Dot then
        (if take 2 cs = [Dot, Dot] then map_option ((#) ELLIPSIS) (tokenize rt (drop 2 cs))
         else map_option ((#) DOT) (tokenize rt cs))
      else if c = Star then
        (if take 1 cs = [Star] then map_option ((#) DOUBLESTAR) (tokenize rt (drop 1 cs))
         else map_option ((#) STAR) (tokenize rt cs))
      else if c = Slash then
        (if take 1 cs = [Slash] then map_option ((#) DOUBLESLASH) (tokenize rt (drop 1 cs))
         else map_option ((#) SLASH) (tokenize rt cs))
      else if c = Plus then map_option ((#) PLUS) (tokenize rt cs)
      else if c = Hyphen then map_option ((#) MINUS) (tokenize rt cs)
      else if c = Percent then map_option ((#) PERCENT) (tokenize rt cs)
      else None)"
  by pat_completeness auto
termination
proof (relation "measure (\<lambda>(rt, cs). length cs)", goal_cases)
  case 1
  show ?case by simp
next
  case (2 rt c cs x2 t rest)
  then have "length rest \<le> length cs"
    using scan_number_length [of rt c cs t rest] by auto
  then show ?case by simp
next
  case (3 rt c cs w)
  show ?case by (simp add: le_imp_less_Suc length_dropWhile_le)
qed auto

section \<open>Python's expression grammar\<close>

text \<open>
  The rules of the grammar that these tokens can reach (the calculator has no
  parentheses, so no rule leads back from an atom to an expression):
  \<^verbatim>\<open>
  comparison: sum ('is' sum)*
  sum:        term (('+' | '-') term)*
  term:       factor (('*' | '/' | '//' | '%') factor)*
  factor:     ('+' | '-') factor | power
  power:      primary ['**' factor]
  primary:    atom ('.' NAME)*
  atom:       NUMBER | NAME | '...'
  \<close>
  The binary operators associate to the left, \<^verbatim>\<open>**\<close> to the right, and a unary sign
  binds less tightly than \<^verbatim>\<open>**\<close> on its left.
\<close>

datatype expr =
    Constant pyval
  | Name "sym list"
  | Attribute expr "sym list"
  | UnaryOp unaryop expr
  | BinOp expr operator expr
  | Compare expr expr "expr list"

definition parse_atom :: "token list \<Rightarrow> (expr \<times> token list) option" where
  "parse_atom ts =
     (case ts of
        NUMBER v # r \<Rightarrow> Some (Constant v, r)
      | NAME w # r \<Rightarrow> Some (Name w, r)
      | ELLIPSIS # r \<Rightarrow> Some (Constant PyEllipsis, r)
      | _ \<Rightarrow> None)"

fun parse_trailers :: "expr \<Rightarrow> token list \<Rightarrow> expr \<times> token list" where
  "parse_trailers e (DOT # NAME w # r) = parse_trailers (Attribute e w) r"
| "parse_trailers e ts = (e, ts)"

definition parse_primary :: "token list \<Rightarrow> (expr \<times> token list) option" where
  "parse_primary ts =
     (case parse_atom ts of None \<Rightarrow> None | Some (a, r) \<Rightarrow> Some (parse_trailers a r))"

lemma parse_trailers_length: "parse_trailers e ts = (e', r) \<Longrightarrow> length r \<le> length ts"
  by (induction e ts arbitrary: e' r rule: parse_trailers.induct) fastforce+

lemma parse_primary_length: "parse_primary ts = Some (e, r) \<Longrightarrow> length r < length ts"
  by (auto simp: parse_primary_def parse_atom_def
      split: list.splits token.splits option.splits prod.splits
      dest!: parse_trailers_length)

text \<open>\<^verbatim>\<open>factor\<close> with \<^verbatim>\<open>power\<close> unfolded in its last case.\<close>

function parse_factor :: "token list \<Rightarrow> (expr \<times> token list) option" where
  "parse_factor ts =
     (case ts of
        PLUS # r \<Rightarrow>
          (case parse_factor r of None \<Rightarrow> None | Some (e, r') \<Rightarrow> Some (UnaryOp UAdd e, r'))
      | MINUS # r \<Rightarrow>
          (case parse_factor r of None \<Rightarrow> None | Some (e, r') \<Rightarrow> Some (UnaryOp USub e, r'))
      | _ \<Rightarrow>
          (case parse_primary ts of
             None \<Rightarrow> None
           | Some (b, r) \<Rightarrow>
               (case r of
                  DOUBLESTAR # r' \<Rightarrow>
                    (case parse_factor r' of
                       None \<Rightarrow> None
                     | Some (e, r'') \<Rightarrow> Some (BinOp b Pow e, r''))
                | _ \<Rightarrow> Some (b, r))))"
  by pat_completeness auto
termination
  by (relation "measure length") (auto dest!: parse_primary_length)

declare parse_factor.simps [simp del]

lemma parse_factor_PLUS:
  "parse_factor (PLUS # r) =
     (case parse_factor r of None \<Rightarrow> None | Some (e, r') \<Rightarrow> Some (UnaryOp UAdd e, r'))"
  by (subst parse_factor.simps) simp

lemma parse_factor_MINUS:
  "parse_factor (MINUS # r) =
     (case parse_factor r of None \<Rightarrow> None | Some (e, r') \<Rightarrow> Some (UnaryOp USub e, r'))"
  by (subst parse_factor.simps) simp

lemma parse_factor_power:
  assumes "take 1 ts \<noteq> [PLUS]" and "take 1 ts \<noteq> [MINUS]"
  shows "parse_factor ts =
     (case parse_primary ts of
        None \<Rightarrow> None
      | Some (b, r) \<Rightarrow>
          (case r of
             DOUBLESTAR # r' \<Rightarrow>
               (case parse_factor r' of
                  None \<Rightarrow> None
                | Some (e, r'') \<Rightarrow> Some (BinOp b Pow e, r''))
           | _ \<Rightarrow> Some (b, r)))"
  using assms by (subst parse_factor.simps) (auto split: list.splits token.splits)

lemma parse_factor_length: "parse_factor ts = Some (e, r) \<Longrightarrow> length r < length ts"
proof (induction ts arbitrary: e r rule: length_induct)
  case (1 ts)
  consider (plus) r0 where "ts = PLUS # r0" | (minus) r0 where "ts = MINUS # r0"
    | (other) "take 1 ts \<noteq> [PLUS]" "take 1 ts \<noteq> [MINUS]"
    by (cases ts) auto
  then show ?case
  proof cases
    case plus
    with "1.prems" obtain e0 where "parse_factor r0 = Some (e0, r)"
      by (auto simp: parse_factor_PLUS split: option.splits)
    with "1.IH" plus show ?thesis by fastforce
  next
    case minus
    with "1.prems" obtain e0 where "parse_factor r0 = Some (e0, r)"
      by (auto simp: parse_factor_MINUS split: option.splits)
    with "1.IH" minus show ?thesis by fastforce
  next
    case other
    with "1.prems" obtain b r1 where p: "parse_primary ts = Some (b, r1)"
      and rest: "(\<exists>r' e0. r1 = DOUBLESTAR # r' \<and> parse_factor r' = Some (e0, r)) \<or> r = r1"
      by (auto simp: parse_factor_power split: option.splits list.splits token.splits)
    from p have l: "length r1 < length ts" by (rule parse_primary_length)
    from rest show ?thesis
    proof
      assume "r = r1" with l show ?thesis by simp
    next
      assume "\<exists>r' e0. r1 = DOUBLESTAR # r' \<and> parse_factor r' = Some (e0, r)"
      then obtain r' e0 where r1: "r1 = DOUBLESTAR # r'" and f: "parse_factor r' = Some (e0, r)"
        by blast
      from l r1 have "length r' < length ts" by simp
      with "1.IH" f have "length r < length r'" by blast
      with l r1 show ?thesis by simp
    qed
  qed
qed

definition term_operator :: "token \<Rightarrow> operator option" where
  "term_operator t =
     (case t of STAR \<Rightarrow> Some Mult | SLASH \<Rightarrow> Some Div | DOUBLESLASH \<Rightarrow> Some FloorDiv
      | PERCENT \<Rightarrow> Some Mod | _ \<Rightarrow> None)"

definition sum_operator :: "token \<Rightarrow> operator option" where
  "sum_operator t = (case t of PLUS \<Rightarrow> Some Add | MINUS \<Rightarrow> Some Sub | _ \<Rightarrow> None)"

function parse_term_rest :: "expr \<Rightarrow> token list \<Rightarrow> (expr \<times> token list) option" where
  "parse_term_rest l [] = Some (l, [])"
| "parse_term_rest l (t # r) =
     (case term_operator t of
        None \<Rightarrow> Some (l, t # r)
      | Some op \<Rightarrow>
          (case parse_factor r of
             None \<Rightarrow> None
           | Some (x, r') \<Rightarrow> parse_term_rest (BinOp l op x) r'))"
  by pat_completeness auto
termination
  by (relation "measure (\<lambda>(l, ts). length ts)") (auto dest!: parse_factor_length)

definition parse_term :: "token list \<Rightarrow> (expr \<times> token list) option" where
  "parse_term ts =
     (case parse_factor ts of None \<Rightarrow> None | Some (l, r) \<Rightarrow> parse_term_rest l r)"

lemma parse_term_rest_length:
  "parse_term_rest l ts = Some (e, r) \<Longrightarrow> length r \<le> length ts"
proof (induction l ts arbitrary: e r rule: parse_term_rest.induct)
  case (1 l)
  then show ?case by simp
next
  case (2 l t r0)
  show ?case
  proof (cases "term_operator t")
    case None
    with "2.prems" show ?thesis by simp
  next
    case (Some op)
    with "2.prems" obtain x r' where f: "parse_factor r0 = Some (x, r')"
      and rest: "parse_term_rest (BinOp l op x) r' = Some (e, r)"
      by (auto split: option.splits)
    from "2.IH" [OF Some f refl rest] parse_factor_length [OF f] show ?thesis by simp
  qed
qed

lemma parse_term_length: "parse_term ts = Some (e, r) \<Longrightarrow> length r < length ts"
  by (auto simp: parse_term_def split: option.splits
      dest!: parse_factor_length parse_term_rest_length)

function parse_sum_rest :: "expr \<Rightarrow> token list \<Rightarrow> (expr \<times> token list) option" where
  "parse_sum_rest l [] = Some (l, [])"
| "parse_sum_rest l (t # r) =
     (case sum_operator t of
        None \<Rightarrow> Some (l, t # r)
      | Some op \<Rightarrow>
          (case parse_term r of
             None \<Rightarrow> None
           | Some (x, r') \<Rightarrow> parse_sum_rest (BinOp l op x) r'))"
  by pat_completeness auto
termination
  by (relation "measure (\<lambda>(l, ts). length ts)") (auto dest!: parse_term_length)

definition parse_sum :: "token list \<Rightarrow> (expr \<times> token list) option" where
  "parse_sum ts =
     (case parse_term ts of None \<Rightarrow> None | Some (l, r) \<Rightarrow> parse_sum_rest l r)"

lemma parse_sum_rest_length:
  "parse_sum_rest l ts = Some (e, r) \<Longrightarrow> length r \<le> length ts"
proof (induction l ts arbitrary: e r rule: parse_sum_rest.induct)
  case (1 l)
  then show ?case by simp
next
  case (2 l t r0)
  show ?case
  proof (cases "sum_operator t")
    case None
    with "2.prems" show ?thesis by simp
  next
    case (Some op)
    with "2.prems" obtain x r' where f: "parse_term r0 = Some (x, r')"
      and rest: "parse_sum_rest (BinOp l op x) r' = Some (e, r)"
      by (auto split: option.splits)
    from "2.IH" [OF Some f refl rest] parse_term_length [OF f] show ?thesis by simp
  qed
qed

lemma parse_sum_length: "parse_sum ts = Some (e, r) \<Longrightarrow> length r < length ts"
  by (auto simp: parse_sum_def split: option.splits
      dest!: parse_term_length parse_sum_rest_length)

text \<open>The operands that follow a first one in a chain of \<^verbatim>\<open>is\<close> comparisons.\<close>

function parse_comparators :: "token list \<Rightarrow> (expr list \<times> token list) option" where
  "parse_comparators [] = Some ([], [])"
| "parse_comparators (t # r) =
     (if t = KwIs then
        (case parse_sum r of
           None \<Rightarrow> None
         | Some (x, r') \<Rightarrow>
             (case parse_comparators r' of
                None \<Rightarrow> None
              | Some (xs, r'') \<Rightarrow> Some (x # xs, r'')))
      else Some ([], t # r))"
  by pat_completeness auto
termination
  by (relation "measure length") (auto dest!: parse_sum_length)

definition parse_comparison :: "token list \<Rightarrow> (expr \<times> token list) option" where
  "parse_comparison ts =
     (case parse_sum ts of
        None \<Rightarrow> None
      | Some (l, r) \<Rightarrow>
          (case parse_comparators r of
             None \<Rightarrow> None
           | Some ([], r') \<Rightarrow> Some (l, r')
           | Some (x # xs, r') \<Rightarrow> Some (Compare l x xs, r')))"

text \<open>The input of \<^verbatim>\<open>eval\<close> is one expression and nothing after it; \<open>None\<close> is a
  \<^verbatim>\<open>SyntaxError\<close>.\<close>

definition parse_eval_input :: "token list \<Rightarrow> expr option" where
  "parse_eval_input ts =
     (case parse_comparison ts of Some (e, []) \<Rightarrow> Some e | _ \<Rightarrow> None)"

section \<open>Evaluation\<close>

text \<open>Operands are evaluated left to right, and the first exception ends the
  evaluation. A name is looked up in the frame of \<^verbatim>\<open>calculate\<close>, the module and the
  builtins: of the names this alphabet can spell only \<^verbatim>\<open>Ellipsis\<close> is bound. No
  number and no \<^verbatim>\<open>Ellipsis\<close> has an attribute of such a name. The first comparison of
  a chain is made once both its operands are there; its result is a \<^verbatim>\<open>bool\<close>.\<close>

definition ellipsis_name :: "sym list" where
  "ellipsis_name = [LE, Ll, Ll, Li, Lp, Ls, Li, Ls]"

fun eval_expr :: "py_runtime \<Rightarrow> expr \<Rightarrow> pyval outcome" where
  "eval_expr rt (Constant v) = Val v"
| "eval_expr rt (Name w) = (if w = ellipsis_name then Val PyEllipsis else Exn NameError)"
| "eval_expr rt (Attribute e w) = bind (eval_expr rt e) (\<lambda>v. Exn AttributeError)"
| "eval_expr rt (UnaryOp op e) = bind (eval_expr rt e) (unary_op op)"
| "eval_expr rt (BinOp l op r) =
     bind (eval_expr rt l) (\<lambda>a. bind (eval_expr rt r) (\<lambda>b. binary_op rt op a b))"
| "eval_expr rt (Compare l x xs) =
     bind (eval_expr rt l) (\<lambda>a. bind (eval_expr rt x) (\<lambda>b. Beyond))"

text \<open>\<^verbatim>\<open>eval(source)\<close>: the whole text is parsed before anything is evaluated.\<close>

definition py_eval :: "py_runtime \<Rightarrow> pystr \<Rightarrow> pyval outcome" where
  "py_eval rt source =
     (case tokenize rt source of
        None \<Rightarrow> Exn SyntaxError
      | Some ts \<Rightarrow>
          (case parse_eval_input ts of
             None \<Rightarrow> Exn SyntaxError
           | Some e \<Rightarrow> eval_expr rt e))"

section \<open>The \<^verbatim>\<open>calculate\<close> method\<close>

text \<open>\<^verbatim>\<open>str.replace\<close> of one character by one character.\<close>

definition replace :: "sym \<Rightarrow> sym \<Rightarrow> pystr \<Rightarrow> pystr" where
  "replace old new s = map (\<lambda>c. if c = old then new else c) s"

text \<open>\<^verbatim>\<open>round(result, 10)\<close>: the decimal rounding (ties to even) of the exact value,
  read back as a double; infinities and NaN round to themselves.\<close>

definition py_round10 :: "pyfloat \<Rightarrow> pyfloat outcome" where
  "py_round10 x =
     (case x of
        Finite q \<Rightarrow>
          (case to_double (of_int (round_half_even (q * 10 ^ 10)) / 10 ^ 10) of
             Finite r \<Rightarrow> Val (Finite r)
           | _ \<Rightarrow> Exn OverflowError)
      | _ \<Rightarrow> Val x)"

text \<open>\<^verbatim>\<open>int(x)\<close> of a float truncates; it raises for an infinity and for a NaN.\<close>

definition py_int_of_float :: "pyfloat \<Rightarrow> int outcome" where
  "py_int_of_float x =
     (case x of Finite q \<Rightarrow> Val (trunc_rat q) | NaN \<Rightarrow> Exn ValueError
      | _ \<Rightarrow> Exn OverflowError)"

text \<open>The four dialogs of \<^verbatim>\<open>calculate\<close>, in the order of the source: for an infinite
  result, and for the three \<^verbatim>\<open>except\<close> clauses.\<close>

datatype dialog =
    DivisionByZeroNotAllowed
  | CannotDivideByZero
  | InvalidExpressionDialog
  | ErrorOccurred pyexn

text \<open>The three \<^verbatim>\<open>except\<close> clauses: each shows its dialog, empties the expression and
  updates the display.\<close>

definition handle_exception :: "pyexn \<Rightarrow> calculator \<Rightarrow> dialog option \<times> calculator" where
  "handle_exception e c =
     (case e of
        ZeroDivisionError \<Rightarrow> (Some CannotDivideByZero, update_display (c\<lparr>expression := []\<rparr>))
      | SyntaxError \<Rightarrow> (Some InvalidExpressionDialog, update_display (c\<lparr>expression := []\<rparr>))
      | _ \<Rightarrow> (Some (ErrorOccurred e), update_display (c\<lparr>expression := []\<rparr>)))"

text \<open>The text that becomes the expression, for a result that is not the positive
  infinity: a float is rounded and, if \<^verbatim>\<open>result == int(result)\<close>, printed as that
  int; anything else is printed by \<^verbatim>\<open>str\<close>.\<close>

definition result_text :: "py_runtime \<Rightarrow> pyval \<Rightarrow> pystr outcome" where
  "result_text rt result =
     (case result of
        PyFloat x \<Rightarrow>
          bind (py_round10 x) (\<lambda>r.
            bind (py_int_of_float r) (\<lambda>n.
              if r = Finite (of_int n) then py_str_int rt n
              else (case r of Finite q \<Rightarrow> Val (float_repr q) | _ \<Rightarrow> Beyond)))
      | PyInt n \<Rightarrow> py_str_int rt n
      | PyEllipsis \<Rightarrow> Val ellipsis_name)"

text \<open>The display signs are replaced by the operators of Python.\<close>

definition calculation_text :: "pystr \<Rightarrow> pystr" where
  "calculation_text s = replace MinusSign Hyphen (replace MulSign Star (replace DivSign Slash s))"

text \<open>\<^verbatim>\<open>calculate\<close> returns the dialog it showed, if any, and the new state. \<open>None\<close>
  only where the evaluation is \<open>Beyond\<close>.\<close>

definition calculate :: "py_runtime \<Rightarrow> calculator \<Rightarrow> (dialog option \<times> calculator) option" where
  "calculate rt c =
     (let calculation = calculation_text (expression c)
      in case py_eval rt calculation of
           Beyond \<Rightarrow> None
         | Exn e \<Rightarrow> Some (handle_exception e c)
         | Val result \<Rightarrow>
             if result = PyFloat PosInf
             then Some (Some DivisionByZeroNotAllowed, update_display (c\<lparr>expression := []\<rparr>))
             else (case result_text rt result of
                     Beyond \<Rightarrow> None
                   | Exn e \<Rightarrow> Some (handle_exception e c)
                   | Val s \<Rightarrow> Some (None, update_display (c\<lparr>expression := s\<rparr>))))"

text \<open>The error classes of the specification, and the class of each dialog.\<close>

datatype error_class = DivisionByZero | InvalidExpression | EvaluationError

definition classify :: "dialog \<Rightarrow> error_class" where
  "classify d =
     (case d of
        DivisionByZeroNotAllowed \<Rightarrow> DivisionByZero
      | CannotDivideByZero \<Rightarrow> DivisionByZero
      | InvalidExpressionDialog \<Rightarrow> InvalidExpression
      | ErrorOccurred e \<Rightarrow> EvaluationError)"

text \<open>The runtime of the worked examples: the default conversion limit of CPython;
  no example reaches the library's \<^verbatim>\<open>pow\<close>.\<close>

definition example_runtime :: py_runtime where
  "example_runtime = \<lparr>libm_pow = (\<lambda>x y. 1), max_str_digits = 4300\<rparr>"

section \<open>Facts about digits\<close>

lemma lt10_cases:
  "i < (10::nat) \<Longrightarrow> i = 0 \<or> i = 1 \<or> i = 2 \<or> i = 3 \<or> i = 4 \<or> i = 5 \<or> i = 6 \<or> i = 7 \<or> i = 8 \<or> i = 9"
  by arith

lemma digit_sym_cases:
  "digit_sym d \<in> {D0, D1, D2, D3, D4, D5, D6, D7, D8, D9}"
proof -
  have "nat (d mod 10) < 10" by simp
  from lt10_cases [OF this] show ?thesis
    unfolding digit_sym_def by (elim disjE) simp_all
qed

lemma is_digit_digit_sym [simp]: "is_digit (digit_sym d)"
  using digit_sym_cases [of d] by auto

lemma digit_value_digit_sym: "0 \<le> d \<Longrightarrow> d < 10 \<Longrightarrow> digit_value (digit_sym d) = d"
proof -
  assume a: "0 \<le> d" "d < 10"
  then have "nat (d mod 10) < 10" and d: "d = int (nat (d mod 10))" by simp_all
  from lt10_cases [OF this(1)] show ?thesis
    unfolding digit_sym_def by (elim disjE) (use d in simp_all)
qed

lemma digit_value_digit_sym_mod [simp]: "digit_value (digit_sym (n mod 10)) = n mod 10"
  by (rule digit_value_digit_sym) simp_all

lemma digit_sym_eq_D0: "0 \<le> d \<Longrightarrow> d < 10 \<Longrightarrow> digit_sym d = D0 \<longleftrightarrow> d = 0"
proof -
  assume a: "0 \<le> d" "d < 10"
  then have "nat (d mod 10) < 10" and d: "d = int (nat (d mod 10))" by simp_all
  from lt10_cases [OF this(1)] show ?thesis
    unfolding digit_sym_def by (elim disjE) (use d in simp_all)
qed

lemma is_digit_not_other:
  "is_digit c \<Longrightarrow> \<not> is_letter c \<and> c \<noteq> Dot \<and> c \<noteq> Plus \<and> c \<noteq> Hyphen \<and> c \<noteq> Star \<and> c \<noteq> Slash
     \<and> c \<noteq> Percent \<and> c \<noteq> DivSign \<and> c \<noteq> MulSign \<and> c \<noteq> MinusSign"
  by (cases c) simp_all

lemma digits_of_digit: "0 \<le> n \<Longrightarrow> n < 10 \<Longrightarrow> digits_of n = [digit_sym n]"
  by (simp add: digits_of.simps)

lemma digits_of_step: "10 \<le> n \<Longrightarrow> digits_of n = digits_of (n div 10) @ [digit_sym (n mod 10)]"
  by (subst digits_of.simps) simp

lemma digits_of_not_Nil [simp]: "digits_of n \<noteq> []"
  by (subst digits_of.simps) simp

lemma digits_of_all_digits: "list_all is_digit (digits_of n)"
  by (induction n rule: digits_of.induct) (subst digits_of.simps, simp)

lemma digits_value_snoc: "digits_value (ds @ [c]) = 10 * digits_value ds + digit_value c"
  by (simp add: digits_value_def)

lemma digits_value_digits_of: "0 \<le> n \<Longrightarrow> digits_value (digits_of n) = n"
proof (induction n rule: digits_of.induct)
  case (1 n)
  show ?case
  proof (cases "n < 10")
    case True
    with "1.prems" show ?thesis
      by (simp add: digits_of_digit digits_value_def digit_value_digit_sym)
  next
    case False
    with 1 have "digits_value (digits_of (n div 10)) = n div 10" by simp
    with False show ?thesis
      by (simp add: digits_of_step digits_value_snoc)
  qed
qed

lemma hd_digits_of: "0 < n \<Longrightarrow> hd (digits_of n) \<noteq> D0"
proof (induction n rule: digits_of.induct)
  case (1 n)
  show ?case
  proof (cases "n < 10")
    case True
    with "1.prems" show ?thesis
      by (simp add: digits_of_digit digit_sym_eq_D0)
  next
    case False
    with 1 have "hd (digits_of (n div 10)) \<noteq> D0" by simp
    with False show ?thesis
      by (simp add: digits_of_step)
  qed
qed

lemma digits_of_0: "digits_of 0 = [D0]"
  by (simp add: digits_of_digit digit_sym_def)

section \<open>Integer literals in the tokenizer\<close>

text \<open>The characters that can follow an integer literal and end it.\<close>

definition ends_number :: "sym list \<Rightarrow> bool" where
  "ends_number cs = (case cs of [] \<Rightarrow> True | c # _ \<Rightarrow> \<not> is_digit c \<and> \<not> is_letter c \<and> c \<noteq> Dot)"

lemma takeWhile_digits: "list_all is_digit ds \<Longrightarrow> ends_number rest \<Longrightarrow> takeWhile is_digit (ds @ rest) = ds"
  by (cases rest) (auto simp: ends_number_def list_all_iff takeWhile_append2 intro: takeWhile_eq_all_conv[THEN iffD2])

lemma dropWhile_digits: "list_all is_digit ds \<Longrightarrow> ends_number rest \<Longrightarrow> dropWhile is_digit (ds @ rest) = rest"
  by (cases rest) (auto simp: ends_number_def list_all_iff dropWhile_append2)

lemma scan_exponent_ends: "ends_number rest \<Longrightarrow> scan_exponent rest = NoExponent"
  by (cases rest) (auto simp: ends_number_def scan_exponent_def)

lemma verify_end_ends: "ends_number rest \<Longrightarrow> verify_end_of_number rest"
  by (cases rest) (auto simp: ends_number_def verify_end_of_number_def)

lemma ends_number_not_dot: "ends_number rest \<Longrightarrow> take (Suc 0) rest \<noteq> [Dot]"
  by (cases rest) (auto simp: ends_number_def)

lemma leading_zero_digits_of:
  "0 \<le> n \<Longrightarrow> \<not> (take (Suc 0) (digits_of n) = [D0] \<and> \<not> list_all (\<lambda>d. d = D0) (digits_of n))"
proof (cases "n = 0")
  case True then show ?thesis by (simp add: digits_of_0)
next
  case False
  assume "0 \<le> n" with False have "hd (digits_of n) \<noteq> D0" by (simp add: hd_digits_of)
  then show ?thesis by (cases "digits_of n") auto
qed

lemma scan_number_digits_of:
  assumes "0 \<le> n" and "ends_number rest" and "\<not> over_digit_limit rt (length (digits_of n))"
  shows "scan_number rt (digits_of n @ rest) = Some (NUMBER (PyInt n), rest)"
  using assms leading_zero_digits_of [of n]
  by (simp add: scan_number_def takeWhile_digits dropWhile_digits digits_of_all_digits
      scan_exponent_ends verify_end_ends ends_number_not_dot digits_value_digits_of Let_def)

lemma tokenize_digits_of:
  assumes "0 \<le> n" and "ends_number rest" and "\<not> over_digit_limit rt (length (digits_of n))"
  shows "tokenize rt (digits_of n @ rest) = map_option ((#) (NUMBER (PyInt n))) (tokenize rt rest)"
proof -
  obtain c cs where d: "digits_of n = c # cs" by (cases "digits_of n") auto
  with digits_of_all_digits [of n] have c: "is_digit c" by simp
  have "scan_number rt (c # cs @ rest) = Some (NUMBER (PyInt n), rest)"
    using scan_number_digits_of [OF assms] d by simp
  with c d show ?thesis by simp
qed

section \<open>Arithmetic expressions of the specification\<close>

text \<open>
  The expressions that the specification's precedence rule speaks of, restricted to
  integer literals and the operators that are exact on them: a sum (\<^verbatim>\<open>+\<close>, \<^verbatim>\<open>\<midarrow>\<close>,
  left to right) of products (\<^verbatim>\<open>\<times>\<close>, left to right). The value follows the
  specification's words: products first, then the sum.
\<close>

datatype addop = AddOp | SubOp

type_synonym product = "int \<times> int list"

type_synonym arith = "product \<times> (addop \<times> product) list"





definition addop_sym :: "addop \<Rightarrow> sym" where
  "addop_sym op = (case op of AddOp \<Rightarrow> Plus | SubOp \<Rightarrow> MinusSign)"


definition literals :: "arith \<Rightarrow> int list" where
  "literals a = concat (map (\<lambda>p. fst p # snd p) (fst a # map snd (snd a)))"

text \<open>A literal the interpreter accepts: not negative and within the conversion limit.\<close>

definition literal_ok :: "py_runtime \<Rightarrow> int \<Rightarrow> bool" where
  "literal_ok rt n = (0 \<le> n \<and> \<not> over_digit_limit rt (length (digits_of n)))"

section \<open>Tokens of an arithmetic expression\<close>

lemma calculation_text_append [simp]:
  "calculation_text (a @ b) = calculation_text a @ calculation_text b"
  by (simp add: calculation_text_def replace_def)

lemma calculation_text_Nil [simp]: "calculation_text [] = []"
  by (simp add: calculation_text_def replace_def)

lemma calculation_text_signs [simp]:
  "calculation_text (MulSign # cs) = Star # calculation_text cs"
  "calculation_text (DivSign # cs) = Slash # calculation_text cs"
  "calculation_text (MinusSign # cs) = Hyphen # calculation_text cs"
  "calculation_text (Plus # cs) = Plus # calculation_text cs"
  "calculation_text (Percent # cs) = Percent # calculation_text cs"
  "calculation_text (Hyphen # cs) = Hyphen # calculation_text cs"
  "calculation_text (Star # cs) = Star # calculation_text cs"
  "calculation_text (Slash # cs) = Slash # calculation_text cs"
  by (simp_all add: calculation_text_def replace_def)

lemma calculation_text_digits:
  "list_all is_digit ds \<Longrightarrow> calculation_text ds = ds"
  by (induction ds) (auto simp: calculation_text_def replace_def dest: is_digit_not_other)

lemma calculation_text_digits_of [simp]: "calculation_text (digits_of n) = digits_of n"
  by (simp add: calculation_text_digits digits_of_all_digits)

lemma ends_number_simps [simp]:
  "ends_number []" "ends_number (Star # cs)" "ends_number (Plus # cs)"
  "ends_number (Hyphen # cs)" "ends_number (Slash # cs)" "ends_number (Percent # cs)"
  by (simp_all add: ends_number_def)

lemma tokenize_Star_digits:
  "tokenize rt (Star # digits_of n @ rest) = map_option ((#) STAR) (tokenize rt (digits_of n @ rest))"
proof -
  obtain c cs where d: "digits_of n = c # cs" by (cases "digits_of n") auto
  with digits_of_all_digits [of n] have "is_digit c" by simp
  then have "c \<noteq> Star" by (auto dest: is_digit_not_other)
  with d show ?thesis by simp
qed

lemma tokenize_Slash_digits:
  "tokenize rt (Slash # digits_of n @ rest) = map_option ((#) SLASH) (tokenize rt (digits_of n @ rest))"
proof -
  obtain c cs where d: "digits_of n = c # cs" by (cases "digits_of n") auto
  with digits_of_all_digits [of n] have "is_digit c" by simp
  then have "c \<noteq> Slash" by (auto dest: is_digit_not_other)
  with d show ?thesis by simp
qed

lemma tokenize_Plus: "tokenize rt (Plus # cs) = map_option ((#) PLUS) (tokenize rt cs)"
  by simp

lemma tokenize_Hyphen: "tokenize rt (Hyphen # cs) = map_option ((#) MINUS) (tokenize rt cs)"
  by simp

lemma tokenize_Percent: "tokenize rt (Percent # cs) = map_option ((#) PERCENT) (tokenize rt cs)"
  by simp


definition addop_token :: "addop \<Rightarrow> token" where
  "addop_token op = (case op of AddOp \<Rightarrow> PLUS | SubOp \<Rightarrow> MINUS)"




lemma addop_simps [simp]:
  "addop_sym AddOp = Plus" "addop_sym SubOp = MinusSign"
  "addop_token AddOp = PLUS" "addop_token SubOp = MINUS"
  by (simp_all add: addop_sym_def addop_token_def)




section \<open>The parse of an arithmetic expression\<close>


definition addop_operator :: "addop \<Rightarrow> operator" where
  "addop_operator op = (case op of AddOp \<Rightarrow> Add | SubOp \<Rightarrow> Sub)"


lemma addop_operator_simps [simp]:
  "addop_operator AddOp = Add" "addop_operator SubOp = Sub"
  by (simp_all add: addop_operator_def)

lemma parse_factor_NUMBER:
  assumes "take 1 r \<noteq> [DOT]" and "take 1 r \<noteq> [DOUBLESTAR]"
  shows "parse_factor (NUMBER v # r) = Some (Constant v, r)"
proof -
  have "parse_trailers (Constant v) r = (Constant v, r)"
    using assms(1) by (cases "(Constant v, r)" rule: parse_trailers.cases) auto
  then have "parse_primary (NUMBER v # r) = Some (Constant v, r)"
    by (simp add: parse_primary_def parse_atom_def)
  then show ?thesis
    using assms(2) by (cases r) (auto simp: parse_factor_power split: token.splits)
qed






section \<open>The value of an arithmetic expression\<close>

lemma bind_Val [simp]: "bind (Val v) f = f v"
  by (simp add: bind_def)






section \<open>One operator between two integer literals\<close>

text \<open>The button of an operator (\<^verbatim>\<open>//\<close> and \<^verbatim>\<open>**\<close> have none: they are entered with
  two presses).\<close>

definition operator_button :: "operator \<Rightarrow> sym option" where
  "operator_button op =
     (case op of Add \<Rightarrow> Some Plus | Sub \<Rightarrow> Some MinusSign | Mult \<Rightarrow> Some MulSign
      | Div \<Rightarrow> Some DivSign | Mod \<Rightarrow> Some Percent | _ \<Rightarrow> None)"

lemma py_eval_binary:
  assumes "literal_ok rt a" and "literal_ok rt b" and "operator_button op = Some s"
  shows "py_eval rt (calculation_text (digits_of a @ s # digits_of b))
       = binary_op rt op (PyInt a) (PyInt b)"
proof -
  from assms(1,2) have a: "0 \<le> a" "\<not> over_digit_limit rt (length (digits_of a))"
    and b: "0 \<le> b" "\<not> over_digit_limit rt (length (digits_of b))"
    by (simp_all add: literal_ok_def)
  have tb: "tokenize rt (digits_of b) = Some [NUMBER (PyInt b)]"
    using tokenize_digits_of [OF b(1) _ b(2), of "[]"] by simp
  have fb: "parse_factor [NUMBER (PyInt b)] = Some (Constant (PyInt b), [])"
    by (rule parse_factor_NUMBER) simp_all
  have fa: "\<And>t. t \<noteq> DOT \<Longrightarrow> t \<noteq> DOUBLESTAR \<Longrightarrow>
      parse_factor (NUMBER (PyInt a) # t # [NUMBER (PyInt b)])
        = Some (Constant (PyInt a), t # [NUMBER (PyInt b)])"
    by (rule parse_factor_NUMBER) simp_all
  have tmb: "parse_term [NUMBER (PyInt b)] = Some (Constant (PyInt b), [])"
    by (simp add: parse_term_def fb)
  consider "op = Add" "s = Plus" | "op = Sub" "s = MinusSign" | "op = Mult" "s = MulSign"
    | "op = Div" "s = DivSign" | "op = Mod" "s = Percent"
    using assms(3) by (cases op) (simp_all add: operator_button_def)
  then show ?thesis
  proof cases
    case 1
    then show ?thesis
      by (simp add: py_eval_def tokenize_digits_of [OF a(1) _ a(2)] tb parse_eval_input_def
          parse_comparison_def parse_sum_def parse_term_def fa term_operator_def
          sum_operator_def fb)
  next
    case 2
    then show ?thesis
      by (simp add: py_eval_def tokenize_digits_of [OF a(1) _ a(2)] tb parse_eval_input_def
          parse_comparison_def parse_sum_def parse_term_def fa term_operator_def
          sum_operator_def fb)
  next
    case 3
    then show ?thesis
      by (simp add: py_eval_def tokenize_digits_of [OF a(1) _ a(2)] tokenize_Star_digits [of rt b "[]", simplified]
          tb parse_eval_input_def
          parse_comparison_def parse_sum_def parse_term_def fa fb term_operator_def)
  next
    case 4
    then show ?thesis
      by (simp add: py_eval_def tokenize_digits_of [OF a(1) _ a(2)] tokenize_Slash_digits [of rt b "[]", simplified]
          tb parse_eval_input_def
          parse_comparison_def parse_sum_def parse_term_def fa fb term_operator_def)
  next
    case 5
    then show ?thesis
      by (simp add: py_eval_def tokenize_digits_of [OF a(1) _ a(2)] tb parse_eval_input_def
          parse_comparison_def parse_sum_def parse_term_def fa fb term_operator_def)
  qed
qed

lemma literal_ok_digit: "0 \<le> n \<Longrightarrow> n < 10 \<Longrightarrow> literal_ok rt n"
  by (simp add: literal_ok_def digits_of_digit over_digit_limit_def)

section \<open>Facts about binary exponents and rounding\<close>

lemma pow2_powi: "pow2 e = 2 powi e"
  by (simp add: pow2_def power_int_def inverse_eq_divide power_one_over)

lemma pow2_pos [simp]: "0 < pow2 e"
  by (simp add: pow2_powi)

lemma pow2_add: "pow2 (a + b) = pow2 a * pow2 b"
  by (simp add: pow2_powi power_int_add)

lemma pow2_mono: "a \<le> b \<Longrightarrow> pow2 a \<le> pow2 b"
  by (simp add: pow2_powi power_int_increasing)

lemma pow2_strict_mono: "a < b \<Longrightarrow> pow2 a < pow2 b"
  by (simp add: pow2_powi power_int_strict_increasing)

lemma pow2_le_iff: "pow2 a \<le> pow2 b \<longleftrightarrow> a \<le> b"
  using pow2_mono [of a b] pow2_strict_mono [of b a] by (auto simp: not_le [symmetric])

lemma pow2_less_iff: "pow2 a < pow2 b \<longleftrightarrow> a < b"
  using pow2_le_iff [of b a] by (auto simp: not_le [symmetric])

lemma pow2_nat: "pow2 (int k) = 2 ^ k"
  by (simp add: pow2_def)

lemma pow2_0 [simp]: "pow2 0 = 1"
  by (simp add: pow2_def)

lemma pow2_1 [simp]: "pow2 1 = 2"
  by (simp add: pow2_def)

lemma pow2_Suc: "pow2 (e + 1) = 2 * pow2 e"
  by (simp add: pow2_add)

lemma ilog2_bounds:
  assumes "0 < q"
  shows "pow2 (ilog2 q) \<le> q" and "q < pow2 (ilog2 q + 1)"
proof -
  obtain n d where nd: "quotient_of q = (n, d)" by (cases "quotient_of q")
  then have d: "0 < d" and q: "q = of_int n / of_int d"
    by (simp_all add: quotient_of_denom_pos quotient_of_div)
  with assms have n: "0 < n" by (simp add: zero_less_divide_iff)
  define e0 where "e0 = bitlen n - bitlen d"
  from bitlen_bounds [OF n] have n1: "2 ^ nat (bitlen n - 1) \<le> n" and n2: "n < 2 ^ nat (bitlen n)"
    by simp_all
  from bitlen_bounds [OF d] have d1: "2 ^ nat (bitlen d - 1) \<le> d" and d2: "d < 2 ^ nat (bitlen d)"
    by simp_all
  have bn: "1 \<le> bitlen n" and bd: "1 \<le> bitlen d"
    using n d by (simp_all add: bitlen_alt_def)
  have N1: "pow2 (bitlen n - 1) \<le> of_int n"
  proof -
    have "(of_int (2 ^ nat (bitlen n - 1)) :: rat) \<le> of_int n" using n1 by (simp only: of_int_le_iff)
    with bn show ?thesis by (simp add: pow2_def)
  qed
  have N2: "of_int n < pow2 (bitlen n)"
  proof -
    have "(of_int n :: rat) < of_int (2 ^ nat (bitlen n))" using n2 by (simp only: of_int_less_iff)
    with bn show ?thesis by (simp add: pow2_def)
  qed
  have D1: "pow2 (bitlen d - 1) \<le> of_int d"
  proof -
    have "(of_int (2 ^ nat (bitlen d - 1)) :: rat) \<le> of_int d" using d1 by (simp only: of_int_le_iff)
    with bd show ?thesis by (simp add: pow2_def)
  qed
  have D2: "of_int d < pow2 (bitlen d)"
  proof -
    have "(of_int d :: rat) < of_int (2 ^ nat (bitlen d))" using d2 by (simp only: of_int_less_iff)
    with bd show ?thesis by (simp add: pow2_def)
  qed
  have dpos: "(0::rat) < of_int d" using d by simp
  have upper: "q < pow2 (e0 + 1)"
  proof -
    have "of_int n < pow2 (bitlen n)" by (rule N2)
    also have "pow2 (bitlen n) = pow2 (e0 + 1) * pow2 (bitlen d - 1)"
      by (simp add: pow2_add [symmetric] e0_def)
    also have "\<dots> \<le> pow2 (e0 + 1) * of_int d"
      using D1 by (simp add: mult_left_mono less_imp_le)
    finally show ?thesis using dpos by (simp add: q pos_divide_less_eq)
  qed
  have lower: "pow2 (e0 - 1) \<le> q"
  proof -
    have "pow2 (e0 - 1) * of_int d \<le> pow2 (e0 - 1) * pow2 (bitlen d)"
      using D2 by (simp add: mult_left_mono less_imp_le)
    also have "\<dots> = pow2 (bitlen n - 1)"
      by (simp add: pow2_add [symmetric] e0_def)
    also have "\<dots> \<le> of_int n" by (rule N1)
    finally show ?thesis using dpos by (simp add: q pos_le_divide_eq)
  qed
  have il: "ilog2 q = (if pow2 e0 \<le> q then e0 else e0 - 1)"
    by (simp add: ilog2_def nd e0_def Let_def)
  show "pow2 (ilog2 q) \<le> q" using lower by (simp add: il)
  show "q < pow2 (ilog2 q + 1)" using upper by (auto simp: il not_le)
qed

lemma ilog2_unique:
  assumes "pow2 e \<le> q" and "q < pow2 (e + 1)"
  shows "ilog2 q = e"
proof -
  have q: "0 < q" using assms(1) pow2_pos [of e] by (rule less_le_trans [rotated])
  note b = ilog2_bounds [OF q]
  from b(1) assms(2) have "pow2 (ilog2 q) < pow2 (e + 1)" by (rule le_less_trans)
  then have "ilog2 q < e + 1" by (simp add: pow2_less_iff)
  moreover from assms(1) b(2) have "pow2 e < pow2 (ilog2 q + 1)" by (rule le_less_trans)
  then have "e < ilog2 q + 1" by (simp add: pow2_less_iff)
  ultimately show ?thesis by simp
qed

lemma ilog2_ge: "0 < q \<Longrightarrow> pow2 e \<le> q \<Longrightarrow> e \<le> ilog2 q"
proof -
  assume q: "0 < q" and e: "pow2 e \<le> q"
  from e ilog2_bounds(2) [OF q] have "pow2 e < pow2 (ilog2 q + 1)" by (rule le_less_trans)
  then show ?thesis by (simp add: pow2_less_iff)
qed

section \<open>Expressions that end in an operator\<close>



text \<open>\<open>keeps_last cs rest\<close>: \<open>rest\<close> is not empty and ends as \<open>cs\<close> does.\<close>

definition keeps_last :: "sym list \<Rightarrow> sym list \<Rightarrow> bool" where
  "keeps_last cs rest = (rest \<noteq> [] \<and> last rest = last cs)"

lemma keeps_last_refl: "cs \<noteq> [] \<Longrightarrow> keeps_last cs cs"
  by (simp add: keeps_last_def)



























section \<open>The calculator's state\<close>

lemma update_display_expression [simp]: "expression (update_display c) = expression c"
  by (simp add: update_display_def)

lemma update_display_empty:
  "update_display (c\<lparr>expression := []\<rparr>) = c\<lparr>expression := [], display := [D0]\<rparr>"
  by (simp add: update_display_def)



lemma handle_exception_dialog: "handle_exception e c = (None, c') \<Longrightarrow> False"
  by (cases e) (auto simp: handle_exception_def)

text \<open>
  \<^bold>\<open>C8.\<close> \<^verbatim>\<open>backspace\<close> removes the last character of a non-empty expression; on the
  empty expression it changes nothing (the expression stays empty, the display keeps
  showing \<^verbatim>\<open>0\<close>), and since a slice never raises there is no failure to model.
\<close>

theorem backspace_removes_last_character:
  "expression (backspace (c\<lparr>expression := s @ [x]\<rparr>)) = s
   \<and> display (backspace (c\<lparr>expression := s @ [x]\<rparr>)) = (if s = [] then [D0] else s)
   \<and> backspace (c\<lparr>expression := [], display := [D0]\<rparr>) = c\<lparr>expression := [], display := [D0]\<rparr>"
  by (simp add: backspace_def slice_drop_last_def update_display_def)



section \<open>Operator precedence\<close>

lemma str_int_not_Nil [simp]: "str_int n \<noteq> []"
  by (simp add: str_int_def)







section \<open>The percent button\<close>






section \<open>Division by zero\<close>

lemma calculate_ZeroDivisionError:
  "py_eval rt (calculation_text (expression c)) = Exn ZeroDivisionError \<Longrightarrow>
   calculate rt c = Some (Some CannotDivideByZero, c\<lparr>expression := [], display := [D0]\<rparr>)"
  by (simp add: calculate_def handle_exception_def update_display_empty)

text \<open>A number that is zero: the int 0 or the float 0.0.\<close>

definition is_zero :: "pyval \<Rightarrow> bool" where
  "is_zero v = (v = PyInt 0 \<or> v = PyFloat (Finite 0))"

text \<open>An operand that the float slot can take: a float, or an int within the
  doubles.\<close>

definition converts :: "pyval \<Rightarrow> bool" where
  "converts v = (\<exists>x. as_double v = Val x)"

lemma binary_op_zero_divisor:
  assumes "is_zero b" and "converts a" and "op = Div \<or> op = Mod"
  shows "binary_op rt op a b = Exn ZeroDivisionError"
proof -
  from assms(2) obtain x where x: "as_double a = Val x" by (auto simp: converts_def)
  have z: "as_double b = Val (Finite 0)"
    using assms(1) by (auto simp: is_zero_def as_double_def int_as_double_def to_double_def)
  from x have "a \<noteq> PyEllipsis" by (auto simp: as_double_def)
  then show ?thesis
    using assms(1,3) x z
    by (cases a; cases b)
      (auto simp: binary_op_def float_binop_def int_binop_def int_true_divide_def is_zero_def
        fzero_def)
qed

text \<open>
  \<^bold>\<open>C4\<close>, as the code has it. A division whose divisor is zero raises
  \<^verbatim>\<open>ZeroDivisionError\<close> whenever its dividend is a float or an int within the doubles;
  every \<^verbatim>\<open>ZeroDivisionError\<close> of an evaluation ends in the dialog of class
  \<open>DivisionByZero\<close> with the expression emptied; so does the expression \<^verbatim>\<open>a\<div>0\<close> for
  every integer literal \<open>a\<close>.
\<close>

theorem division_by_zero_is_reported:
  "(is_zero b \<and> converts a \<longrightarrow> binary_op rt Div a b = Exn ZeroDivisionError)
   \<and> (py_eval rt (calculation_text (expression c)) = Exn ZeroDivisionError \<longrightarrow>
        calculate rt c = Some (Some CannotDivideByZero, c\<lparr>expression := [], display := [D0]\<rparr>))
   \<and> (literal_ok rt n \<longrightarrow>
        calculate rt \<lparr>expression = digits_of n @ [DivSign, D0], display = d\<rparr>
          = Some (Some CannotDivideByZero, \<lparr>expression = [], display = [D0]\<rparr>))
   \<and> classify CannotDivideByZero = DivisionByZero"
proof (intro conjI impI)
  assume "is_zero b \<and> converts a"
  then show "binary_op rt Div a b = Exn ZeroDivisionError"
    by (simp add: binary_op_zero_divisor)
next
  assume "py_eval rt (calculation_text (expression c)) = Exn ZeroDivisionError"
  then show "calculate rt c = Some (Some CannotDivideByZero, c\<lparr>expression := [], display := [D0]\<rparr>)"
    by (rule calculate_ZeroDivisionError)
next
  assume n: "literal_ok rt n"
  let ?c = "\<lparr>expression = digits_of n @ [DivSign, D0], display = d\<rparr>"
  have "py_eval rt (calculation_text (digits_of n @ DivSign # digits_of 0))
      = binary_op rt Div (PyInt n) (PyInt 0)"
    by (rule py_eval_binary [OF n]) (simp_all add: literal_ok_digit operator_button_def)
  then have "py_eval rt (calculation_text (expression ?c)) = Exn ZeroDivisionError"
    by (simp add: digits_of_0 binary_op_def int_binop_def int_true_divide_def)
  from calculate_ZeroDivisionError [OF this]
  show "calculate rt ?c = Some (Some CannotDivideByZero, \<lparr>expression = [], display = [D0]\<rparr>)"
    by simp
next
  show "classify CannotDivideByZero = DivisionByZero" by (simp add: classify_def)
qed

theorem division_by_zero_is_reported_witness:
  "is_zero (PyInt 0) \<and> converts (PyInt 5) \<and> literal_ok example_runtime 5
   \<and> py_eval example_runtime (calculation_text [D5, DivSign, D0]) = Exn ZeroDivisionError
   \<and> binary_op example_runtime Div (PyInt 5) (PyInt 0) = Exn ZeroDivisionError
   \<and> calculate example_runtime \<lparr>expression = [D5, DivSign, D0], display = []\<rparr>
       = Some (Some CannotDivideByZero, \<lparr>expression = [], display = [D0]\<rparr>)"
proof -
  have z: "is_zero (PyInt 0)" by (simp add: is_zero_def)
  have "as_double (PyInt 5) = Val (Finite 5)" by code_simp
  then have c: "converts (PyInt 5)" by (simp add: converts_def)
  have l: "literal_ok example_runtime 5" by (simp add: literal_ok_digit)
  have t: "digits_of 5 @ [DivSign, D0] = [D5, DivSign, D0]" by code_simp
  note inst = division_by_zero_is_reported
    [of "PyInt 0" "PyInt 5" example_runtime
        "\<lparr>expression = [D5, DivSign, D0], display = []\<rparr>" 5 "[]"]
  from inst z c have 1: "binary_op example_runtime Div (PyInt 5) (PyInt 0) = Exn ZeroDivisionError"
    by blast
  from inst l t have 3: "calculate example_runtime \<lparr>expression = [D5, DivSign, D0], display = []\<rparr>
       = Some (Some CannotDivideByZero, \<lparr>expression = [], display = [D0]\<rparr>)"
    by simp
  have 2: "py_eval example_runtime (calculation_text [D5, DivSign, D0]) = Exn ZeroDivisionError"
    by code_simp
  from z c l 1 2 3 show ?thesis by simp
qed

section \<open>The remainder by zero\<close>

text \<open>
  \<^bold>\<open>C9\<close>, as the code has it. A remainder whose divisor is zero raises the same
  \<^verbatim>\<open>ZeroDivisionError\<close> as the division of the same operands, whenever the dividend is
  a float or an int within the doubles; the expression \<^verbatim>\<open>a%0\<close>, in which no division
  sign occurs, ends for every integer literal \<open>a\<close> in the same dialog and the same
  state as \<^verbatim>\<open>a\<div>0\<close>.
\<close>

theorem remainder_by_zero_is_division_by_zero:
  "(is_zero b \<and> converts a \<longrightarrow>
      binary_op rt Mod a b = Exn ZeroDivisionError
      \<and> binary_op rt Mod a b = binary_op rt Div a b)
   \<and> (literal_ok rt n \<longrightarrow>
        calculate rt \<lparr>expression = digits_of n @ [Percent, D0], display = d\<rparr>
          = Some (Some CannotDivideByZero, \<lparr>expression = [], display = [D0]\<rparr>)
        \<and> calculate rt \<lparr>expression = digits_of n @ [Percent, D0], display = d\<rparr>
          = calculate rt \<lparr>expression = digits_of n @ [DivSign, D0], display = d\<rparr>
        \<and> DivSign \<notin> set (digits_of n @ [Percent, D0]))
   \<and> classify CannotDivideByZero = DivisionByZero"
proof (intro conjI impI)
  assume a: "is_zero b \<and> converts a"
  then show "binary_op rt Mod a b = Exn ZeroDivisionError"
    by (simp add: binary_op_zero_divisor)
  with a show "binary_op rt Mod a b = binary_op rt Div a b"
    by (simp add: binary_op_zero_divisor)
next
  assume n: "literal_ok rt n"
  let ?m = "\<lparr>expression = digits_of n @ [Percent, D0], display = d\<rparr>"
  let ?q = "\<lparr>expression = digits_of n @ [DivSign, D0], display = d\<rparr>"
  have "py_eval rt (calculation_text (digits_of n @ Percent # digits_of 0))
      = binary_op rt Mod (PyInt n) (PyInt 0)"
    by (rule py_eval_binary [OF n]) (simp_all add: literal_ok_digit operator_button_def)
  then have "py_eval rt (calculation_text (expression ?m)) = Exn ZeroDivisionError"
    by (simp add: digits_of_0 binary_op_def int_binop_def)
  from calculate_ZeroDivisionError [OF this]
  show m: "calculate rt ?m = Some (Some CannotDivideByZero, \<lparr>expression = [], display = [D0]\<rparr>)"
    by simp
  have "py_eval rt (calculation_text (digits_of n @ DivSign # digits_of 0))
      = binary_op rt Div (PyInt n) (PyInt 0)"
    by (rule py_eval_binary [OF n]) (simp_all add: literal_ok_digit operator_button_def)
  then have "py_eval rt (calculation_text (expression ?q)) = Exn ZeroDivisionError"
    by (simp add: digits_of_0 binary_op_def int_binop_def int_true_divide_def)
  from calculate_ZeroDivisionError [OF this] m show "calculate rt ?m = calculate rt ?q"
    by simp
  have "\<forall>c\<in>set (digits_of n). is_digit c"
    using digits_of_all_digits [of n] by (simp add: list_all_iff)
  then show "DivSign \<notin> set (digits_of n @ [Percent, D0])"
    by (auto dest: is_digit_not_other)
next
  show "classify CannotDivideByZero = DivisionByZero" by (simp add: classify_def)
qed

theorem remainder_by_zero_is_division_by_zero_witness:
  "is_zero (PyInt 0) \<and> converts (PyInt 5) \<and> literal_ok example_runtime 5
   \<and> binary_op example_runtime Mod (PyInt 5) (PyInt 0) = Exn ZeroDivisionError
   \<and> calculate example_runtime \<lparr>expression = [D5, Percent, D0], display = []\<rparr>
       = Some (Some CannotDivideByZero, \<lparr>expression = [], display = [D0]\<rparr>)"
proof -
  have z: "is_zero (PyInt 0)" by (simp add: is_zero_def)
  have "as_double (PyInt 5) = Val (Finite 5)" by code_simp
  then have c: "converts (PyInt 5)" by (simp add: converts_def)
  have l: "literal_ok example_runtime 5" by (simp add: literal_ok_digit)
  have t: "digits_of 5 @ [Percent, D0] = [D5, Percent, D0]" by code_simp
  note inst = remainder_by_zero_is_division_by_zero
    [of "PyInt 0" "PyInt 5" example_runtime 5 "[]"]
  from inst z c have 1: "binary_op example_runtime Mod (PyInt 5) (PyInt 0) = Exn ZeroDivisionError"
    by blast
  from inst l t have 2: "calculate example_runtime \<lparr>expression = [D5, Percent, D0], display = []\<rparr>
       = Some (Some CannotDivideByZero, \<lparr>expression = [], display = [D0]\<rparr>)"
    by simp
  from z c l 1 2 show ?thesis by simp
qed

section \<open>Chaining\<close>

text \<open>
  \<^bold>\<open>C7.\<close> When \<^verbatim>\<open>calculate\<close> shows no dialog, the evaluation returned a value and the
  new expression is the text of that value, which the display shows; what is appended
  next is appended to that text.
\<close>

theorem result_becomes_expression:
  assumes "calculate rt c = Some (None, c')"
  shows "(\<exists>v. py_eval rt (calculation_text (expression c)) = Val v
            \<and> result_text rt v = Val (expression c'))
         \<and> c' = update_display (c\<lparr>expression := expression c'\<rparr>)
         \<and> expression (append_to_expression c' s) = expression c' @ s"
proof (cases "py_eval rt (calculation_text (expression c))")
  case (Val v)
  show ?thesis
  proof (cases "v = PyFloat PosInf")
    case True
    with assms Val show ?thesis by (simp add: calculate_def)
  next
    case False
    with assms Val show ?thesis
      by (cases "result_text rt v")
        (auto simp: calculate_def append_to_expression_def dest: handle_exception_dialog)
  qed
next
  case (Exn e)
  with assms show ?thesis by (auto simp: calculate_def dest: handle_exception_dialog)
next
  case Beyond
  with assms show ?thesis by (simp add: calculate_def)
qed

text \<open>The instance of the specification: \<^verbatim>\<open>2+2\<close> leaves \<^verbatim>\<open>4\<close>; after \<^verbatim>\<open>+1\<close> is
  appended the expression is \<^verbatim>\<open>4+1\<close>, and evaluating it leaves \<^verbatim>\<open>5\<close>.\<close>

theorem result_becomes_expression_witness:
  "calculate example_runtime \<lparr>expression = [D2, Plus, D2], display = [D2, Plus, D2]\<rparr>
     = Some (None, \<lparr>expression = [D4], display = [D4]\<rparr>)
   \<and> result_text example_runtime (PyInt 4) = Val [D4]
   \<and> append_to_expression \<lparr>expression = [D4], display = [D4]\<rparr> [Plus, D1]
     = \<lparr>expression = [D4, Plus, D1], display = [D4, Plus, D1]\<rparr>
   \<and> calculate example_runtime \<lparr>expression = [D4, Plus, D1], display = [D4, Plus, D1]\<rparr>
     = Some (None, \<lparr>expression = [D5], display = [D5]\<rparr>)"
proof -
  let ?c = "\<lparr>expression = [D2, Plus, D2], display = [D2, Plus, D2]\<rparr>"
  let ?c' = "\<lparr>expression = [D4], display = [D4]\<rparr>"
  have 1: "calculate example_runtime ?c = Some (None, ?c')" by code_simp
  have e: "py_eval example_runtime (calculation_text (expression ?c)) = Val (PyInt 4)"
    by code_simp
  from result_becomes_expression [OF 1, of "[Plus, D1]"] e
  have 2: "result_text example_runtime (PyInt 4) = Val [D4]"
    and 3: "expression (append_to_expression ?c' [Plus, D1]) = [D4, Plus, D1]"
    by auto
  from 3 have 4: "append_to_expression ?c' [Plus, D1]
      = \<lparr>expression = [D4, Plus, D1], display = [D4, Plus, D1]\<rparr>"
    by (simp add: append_to_expression_def update_display_def)
  have 5: "calculate example_runtime \<lparr>expression = [D4, Plus, D1], display = [D4, Plus, D1]\<rparr>
     = Some (None, \<lparr>expression = [D5], display = [D5]\<rparr>)"
    by code_simp
  from 1 2 4 5 show ?thesis by simp
qed

section \<open>Invalid expressions\<close>







end
